theory Spec2Isabelle
  imports Main "HOL-Library.Multiset"
begin

section \<open>Wordle Wars: the per-client game state machine of WordleWars.vue\<close>

text \<open>
  The component keeps a local stage (\<open>gameState\<close>), the local player's presence, the
  presences of the other connected users and a shared list of saved scores. Every change
  runs the game event of the current stage; events and UI handlers move the stage with
  \<open>updateGameStage\<close>. The model below passes the component's state explicitly and returns
  the state after each handler. Display-only state (\<open>emojiScore\<close>, \<open>copyLinkMessage\<close>,
  the audio player, local storage) never feeds back into a stage or a presence and is
  left out.
\<close>

subsection \<open>Data\<close>

text \<open>
  Modelled from the spec: \<open>types.ts\<close>, which declares the enums \<open>GameState\<close> and
  \<open>LetterState\<close>, is not among the sources. \<open>GameState\<close> has the members that
  WordleWars.vue refers to, in the order of the lifecycle the specification gives
  (CONNECTING, INTRO, WAITING, READY, PLAYING, COMPLETE, SCORES); \<open>LetterState\<close> has
  the four members the sources refer to.
\<close>

datatype GameState = CONNECTING | INTRO | WAITING | READY | PLAYING | COMPLETE | SCORES

datatype LetterState = INITIAL | CORRECT | PRESENT | ABSENT

text \<open>
  A JavaScript number, as far as the component produces them: integers (counts, string
  lengths, \<open>Date.now()\<close>), \<open>Infinity\<close> (the initial \<open>timeFinished\<close>) and \<open>NaN\<close>
  (an increment of a missing key).
\<close>

datatype number = Num int | Infinity | NaN

record Tile =
  letter :: string
  state :: LetterState

text \<open>The board of a presence is the empty string at first, later the rows of tiles.\<close>

datatype Board = BoardString string | BoardRows "Tile list list"

text \<open>An object keyed by letter states: its entries, in insertion order.\<close>

type_synonym Score = "(LetterState \<times> number) list"

text \<open>
  A presence is an object whose fields may be missing; a patch passed to
  \<open>updateMyPresence\<close> has the same shape.
\<close>

record Presence =
  name :: "string option"
  board :: "Board option"
  score :: "Score option"
  stage :: "GameState option"
  rowsComplete :: "nat option"
  timeFinished :: "number option"

record User =
  connectionId :: nat
  presence :: "Presence option"

text \<open>
  What a hook returns: \<open>Undefined\<close> when the handle itself is missing (the source guards
  it with \<open>?.\<close>), otherwise a reference whose \<open>value\<close> is \<open>None\<close> (null) or loaded.
\<close>

datatype 'a ref = Undefined | Ref "'a option"

datatype callback = UpdateGameStage GameState | ConfettiOff

datatype error = TypeError

record client =
  gameState :: GameState
  username :: string
  confettiAnimation :: bool
  myPresence :: "Presence ref"
  others :: "User list ref"
  savedScores :: "Presence option list ref"
  timeouts :: "(nat \<times> callback) list"

definition allStages :: "GameState list" where
  "allStages = [CONNECTING, INTRO, WAITING, READY, PLAYING, COMPLETE, SCORES]"


subsection \<open>Presence\<close>

definition emptyPresence :: Presence where
  "emptyPresence = \<lparr>name = None, board = None, score = None, stage = None,
     rowsComplete = None, timeFinished = None\<rparr>"

text \<open>Object spread \<open>{...p, ...patch}\<close>: a field of the patch replaces the field of \<open>p\<close>.\<close>

definition override :: "'a option \<Rightarrow> 'a option \<Rightarrow> 'a option" where
  "override new old = (case new of None \<Rightarrow> old | Some v \<Rightarrow> Some v)"

definition mergePresence :: "Presence \<Rightarrow> Presence \<Rightarrow> Presence" where
  "mergePresence patch p =
     \<lparr>name = override (name patch) (name p),
      board = override (board patch) (board p),
      score = override (score patch) (score p),
      stage = override (stage patch) (stage p),
      rowsComplete = override (rowsComplete patch) (rowsComplete p),
      timeFinished = override (timeFinished patch) (timeFinished p)\<rparr>"

text \<open>
  Modelled from the spec: \<open>updateMyPresence\<close> comes from \<open>lib-liveblocks\<close>, which is
  not among the sources; the specification calls it the presence service. It merges the
  patch into the local presence (a presence that is still null counts as the empty
  object) and the reference returned by \<open>useMyPresence\<close> shows the result at once.
  Without a reference there is nothing to show it in.
\<close>

definition updateMyPresence :: "Presence \<Rightarrow> client \<Rightarrow> client" where
  "updateMyPresence patch c =
     (case myPresence c of
        Undefined \<Rightarrow> c
      | Ref None \<Rightarrow> c\<lparr>myPresence := Ref (Some (mergePresence patch emptyPresence))\<rparr>
      | Ref (Some p) \<Rightarrow> c\<lparr>myPresence := Ref (Some (mergePresence patch p))\<rparr>)"

text \<open>\<open>r?.value\<close> is truthy: the handle exists and its value is loaded.\<close>

fun truthy :: "'a ref \<Rightarrow> bool" where
  "truthy (Ref (Some v)) = True"
| "truthy r = False"

subsection \<open>Helper functions\<close>

definition updateGameStage :: "GameState \<Rightarrow> client \<Rightarrow> client" where
  "updateGameStage stg c =
     (if truthy (myPresence c)
      then updateMyPresence (emptyPresence\<lparr>stage := Some stg\<rparr>) (c\<lparr>gameState := stg\<rparr>)
      else c)"

text \<open>\<open>other.presence && other.presence.stage === stg\<close>\<close>

definition otherInStage :: "GameState \<Rightarrow> User \<Rightarrow> bool" where
  "otherInStage stg other =
     (case presence other of None \<Rightarrow> False | Some p \<Rightarrow> stage p = Some stg)"

text \<open>
  The callback of \<open>stages.some\<close> in \<open>allInStages\<close>, run over the stages from the left
  with the variable \<open>myPresenceFound\<close> threaded through. \<open>some\<close> stops at the first
  stage whose callback returns true. Reading \<open>myPresence!.value.stage\<close> throws when the
  presence is missing, but \<open>||\<close> skips the read once \<open>myPresenceFound\<close> is true. The
  result is the value of \<open>some\<close> and the final \<open>myPresenceFound\<close>.
\<close>

fun someStage :: "GameState list \<Rightarrow> bool \<Rightarrow> User list \<Rightarrow> Presence ref
    \<Rightarrow> error + (bool \<times> bool)" where
  "someStage [] found os me = Inr (False, found)"
| "someStage (stg # stages) found os me =
     (let othersReady = list_all (otherInStage stg) os in
      if found then (if othersReady then Inr (True, True) else someStage stages True os me)
      else (case me of
              Ref (Some p) \<Rightarrow>
                (let found' = (stage p = Some stg) in
                 if othersReady then Inr (True, found') else someStage stages found' os me)
            | _ \<Rightarrow> Inl TypeError))"

text \<open>\<open>Others.count\<close> is the number of other users, the length of \<open>toArray()\<close>.\<close>

definition allInStages :: "GameState list \<Rightarrow> client \<Rightarrow> error + bool" where
  "allInStages stages c =
     (case others c of
        Ref (Some os) \<Rightarrow>
          (if length os = 0 then Inr False
           else (case someStage stages False os (myPresence c) of
                   Inl e \<Rightarrow> Inl e
                 | Inr (res, myPresenceFound) \<Rightarrow> Inr (res \<and> myPresenceFound)))
      | _ \<Rightarrow> Inr False)"

definition setTimeout :: "callback \<Rightarrow> nat \<Rightarrow> client \<Rightarrow> client" where
  "setTimeout cb ms c = c\<lparr>timeouts := timeouts c @ [(ms, cb)]\<rparr>"

fun runCallback :: "callback \<Rightarrow> client \<Rightarrow> client" where
  "runCallback (UpdateGameStage stg) c = updateGameStage stg c"
| "runCallback ConfettiOff c = c\<lparr>confettiAnimation := False\<rparr>"

text \<open>The pending timeout at position \<open>i\<close> expires: it leaves the queue and runs.\<close>

definition fireTimeout :: "nat \<Rightarrow> client \<Rightarrow> client" where
  "fireTimeout i c =
     (if i < length (timeouts c)
      then runCallback (snd (timeouts c ! i))
             (c\<lparr>timeouts := take i (timeouts c) @ drop (Suc i) (timeouts c)\<rparr>)
      else c)"

subsection \<open>Game events\<close>

text \<open>
  \<open>gameEvents[gameState]?.()\<close>, the body of the \<open>watchEffect\<close>: the handler of the
  current stage, if it has one. A handler that throws leaves the state as it was at the
  throw.
\<close>

definition gameEvents :: "client \<Rightarrow> (error \<times> client) + client" where
  "gameEvents c =
     (case gameState c of
        CONNECTING \<Rightarrow>
          (if truthy (myPresence c) \<and> truthy (savedScores c)
           then Inr (updateGameStage INTRO c) else Inr c)
      | INTRO \<Rightarrow>
          (case savedScores c of
             Ref (Some l) \<Rightarrow> (if length l \<noteq> 0 then Inr (updateGameStage SCORES c) else Inr c)
           | _ \<Rightarrow> Inr c)
      | READY \<Rightarrow>
          (case allInStages [READY, PLAYING] c of
             Inl e \<Rightarrow> Inl (e, c)
           | Inr b \<Rightarrow> (if b then Inr (setTimeout (UpdateGameStage PLAYING) 800 c) else Inr c))
      | COMPLETE \<Rightarrow>
          (case allInStages [SCORES, COMPLETE, WAITING] c of
             Inl e \<Rightarrow> Inl (e, c)
           | Inr b \<Rightarrow> (if b then Inr (updateGameStage SCORES c) else Inr c))
      | _ \<Rightarrow> Inr c)"

subsection \<open>Event functions\<close>

definition enterWaitingRoom :: "client \<Rightarrow> client" where
  "enterWaitingRoom c =
     updateGameStage WAITING
       (updateMyPresence
          \<lparr>name = Some (username c),
           board = Some (BoardString []),
           score = Some [(ABSENT, Num 0), (CORRECT, Num 0), (PRESENT, Num 0)],
           stage = Some (gameState c),
           rowsComplete = Some 0,
           timeFinished = Some Infinity\<rparr> c)"

text \<open>The two buttons of the waiting room, shown while the stage is WAITING or READY.\<close>

definition readyButtonShown :: "client \<Rightarrow> bool" where
  "readyButtonShown c =
     ((gameState c = WAITING \<or> gameState c = READY) \<and>
      (case myPresence c of Ref (Some p) \<Rightarrow> stage p \<noteq> Some READY | _ \<Rightarrow> False))"


definition clickReady :: "client \<Rightarrow> client" where
  "clickReady c = updateGameStage READY c"

definition clickUnready :: "client \<Rightarrow> client" where
  "clickUnready c = updateGameStage WAITING c"

text \<open>\<open>obj[k] = v\<close> on an object: replaces the entry of \<open>k\<close> or adds one at the end.\<close>

fun objSet :: "'k \<Rightarrow> 'v \<Rightarrow> ('k \<times> 'v) list \<Rightarrow> ('k \<times> 'v) list" where
  "objSet k v [] = [(k, v)]"
| "objSet k v ((k', v') # kvs) =
     (if k' = k then (k, v) # kvs else (k', v') # objSet k v kvs)"

text \<open>\<open>x += 1\<close> on the value read from an object: a missing key reads undefined.\<close>

fun plusOne :: "number option \<Rightarrow> number" where
  "plusOne (Some (Num n)) = Num (n + 1)"
| "plusOne (Some Infinity) = Infinity"
| "plusOne (Some NaN) = NaN"
| "plusOne None = NaN"

definition countStates :: "LetterState list \<Rightarrow> Score" where
  "countStates sts =
     fold (\<lambda>st currentScore. objSet st (plusOne (map_of currentScore st)) currentScore) sts
       [(CORRECT, Num 0), (PRESENT, Num 0), (ABSENT, Num 0)]"

definition countRows :: "Tile list list \<Rightarrow> nat" where
  "countRows letterBoard =
     fold (\<lambda>curr acc. if list_all (\<lambda>obj. state obj \<noteq> INITIAL) curr then acc + 1 else acc)
       letterBoard 0"

text \<open>
  \<open>letterStates\<close> is the object from guessed letter to its state, given by its entries;
  \<open>Object.values\<close> lists the states.
\<close>

definition onLettersGuessed :: "(string \<times> LetterState) list \<Rightarrow> Tile list list \<Rightarrow> client \<Rightarrow> client" where
  "onLettersGuessed letterStates letterBoard c =
     updateMyPresence
       (emptyPresence\<lparr>score := Some (countStates (map snd letterStates)),
          board := Some (BoardRows letterBoard),
          rowsComplete := Some (countRows letterBoard)\<rparr>) c"

text \<open>
  \<open>onGameComplete\<close>, with the clock reading \<open>Date.now()\<close> and the word of the day as
  arguments. The guard tests the handles only; a null presence makes
  \<open>myPresence.value.score\<close> throw and a null list makes \<open>push\<close> throw, after the
  updates made so far.
\<close>

definition onGameComplete :: "bool \<Rightarrow> int \<Rightarrow> string \<Rightarrow> client \<Rightarrow> (error \<times> client) + client" where
  "onGameComplete success now answer c =
     (if myPresence c = Undefined \<or> savedScores c = Undefined then Inr c
      else
        (let c1 = updateGameStage COMPLETE c;
             updatedPresence = emptyPresence\<lparr>timeFinished := Some (Num now)\<rparr>
         in case (if success
                  then (case myPresence c1 of
                          Ref (Some p) \<Rightarrow>
                            Inr (updatedPresence\<lparr>score := Some (objSet CORRECT (Num (int (length answer)))
                                     (case score p of None \<Rightarrow> [] | Some sc \<Rightarrow> sc))\<rparr>,
                                 setTimeout ConfettiOff 3000 (c1\<lparr>confettiAnimation := True\<rparr>))
                        | _ \<Rightarrow> Inl (TypeError, c1))
                  else Inr (updatedPresence, c1)) of
              Inl e \<Rightarrow> Inl e
            | Inr (updatedPresence', c2) \<Rightarrow>
                (let c3 = updateMyPresence updatedPresence' c2 in
                 case savedScores c3 of
                   Ref (Some l) \<Rightarrow>
                     Inr (c3\<lparr>savedScores :=
                            Ref (Some (l @ [case myPresence c3 of Ref v \<Rightarrow> v | Undefined \<Rightarrow> None]))\<rparr>)
                 | _ \<Rightarrow> Inl (TypeError, c3))))"

subsection \<open>Live boards\<close>

definition othersPresence :: "client \<Rightarrow> Presence list" where
  "othersPresence c =
     (case others c of
        Ref (Some os) \<Rightarrow> List.map_filter presence os
      | _ \<Rightarrow> [])"

text \<open>
  \<open>othersPresence.filter((other, index) => ...)\<close>: the entries kept, each with its index in
  \<open>othersPresence\<close>, which tells apart two peers whose presences are equal.
\<close>

definition othersFilterOddIndexed :: "bool \<Rightarrow> client \<Rightarrow> (nat \<times> Presence) list" where
  "othersFilterOddIndexed oddIndex c =
     filter (\<lambda>(index, other). score other \<noteq> None \<and> index mod 2 = (if oddIndex then 1 else 0))
       (List.enumerate 0 (othersPresence c))"

definition othersFilterOdd :: "bool \<Rightarrow> client \<Rightarrow> Presence list" where
  "othersFilterOdd oddIndex c = map snd (othersFilterOddIndexed oddIndex c)"

subsection \<open>The specification's wording\<close>

text \<open>The other connected users; none while the list of others is not loaded.\<close>

definition otherUsers :: "client \<Rightarrow> User list" where
  "otherUsers c = (case others c of Ref (Some os) \<Rightarrow> os | _ \<Rightarrow> [])"

text \<open>
  "Every user (the local player and every other connected user) is in one of the
  stages": each user for itself, in any stage of the list.
\<close>

definition everyUserInStages :: "GameState list \<Rightarrow> client \<Rightarrow> bool" where
  "everyUserInStages stages c =
     ((case myPresence c of
         Ref (Some p) \<Rightarrow> list_ex (\<lambda>stg. stage p = Some stg) stages
       | _ \<Rightarrow> False) \<and>
      list_all (\<lambda>other. list_ex (\<lambda>stg. otherInStage stg other) stages) (otherUsers c))"

text \<open>
  The reading of \<open>allInStages\<close> in claim C8: one stage of the list holds every other
  user, and the local player's stage is some stage of the list.
\<close>

definition allInStagesClaimed :: "GameState list \<Rightarrow> client \<Rightarrow> bool" where
  "allInStagesClaimed stages c =
     (list_ex (\<lambda>stg. list_all (otherInStage stg) (otherUsers c)) stages \<and>
      (case myPresence c of
         Ref (Some p) \<Rightarrow> list_ex (\<lambda>stg. stage p = Some stg) stages
       | _ \<Rightarrow> False))"

text \<open>The state a handler leaves behind, whether it returned or threw.\<close>

definition resultState :: "(error \<times> client) + client \<Rightarrow> client" where
  "resultState r = (case r of Inl (e, c) \<Rightarrow> c | Inr c \<Rightarrow> c)"

subsection \<open>Example states\<close>

text \<open>A presence as \<open>enterWaitingRoom\<close> sets it, moved to a stage.\<close>

definition playerIn :: "string \<Rightarrow> GameState \<Rightarrow> Presence" where
  "playerIn n stg =
     \<lparr>name = Some n, board = Some (BoardString []),
      score = Some [(ABSENT, Num 0), (CORRECT, Num 0), (PRESENT, Num 0)],
      stage = Some stg, rowsComplete = Some 0, timeFinished = Some Infinity\<rparr>"

definition peerIn :: "nat \<Rightarrow> GameState \<Rightarrow> User" where
  "peerIn i stg = \<lparr>connectionId = i, presence = Some (playerIn ''bob'' stg)\<rparr>"

text \<open>A connected client in a stage, with its peers and the saved scores.\<close>

definition clientIn :: "GameState \<Rightarrow> User list \<Rightarrow> Presence option list \<Rightarrow> client" where
  "clientIn stg os l =
     \<lparr>gameState = stg, username = ''ann'', confettiAnimation = False,
      myPresence = Ref (Some (playerIn ''ann'' stg)), others = Ref (Some os),
      savedScores = Ref (Some l), timeouts = []\<rparr>"


section \<open>Properties\<close>

subsection \<open>What a presence update leaves alone\<close>

lemma updateMyPresence_frame:
  "gameState (updateMyPresence patch c) = gameState c"
  "others (updateMyPresence patch c) = others c"
  "savedScores (updateMyPresence patch c) = savedScores c"
  "timeouts (updateMyPresence patch c) = timeouts c"
  "confettiAnimation (updateMyPresence patch c) = confettiAnimation c"
  "username (updateMyPresence patch c) = username c"
  by (simp_all add: updateMyPresence_def split: ref.split option.split)

lemma updateMyPresence_loaded:
  "myPresence c = Ref (Some p) \<Longrightarrow>
   myPresence (updateMyPresence patch c) = Ref (Some (mergePresence patch p))"
  by (simp add: updateMyPresence_def)

lemma updateMyPresence_null:
  "myPresence c = Ref None \<Longrightarrow>
   myPresence (updateMyPresence patch c) = Ref (Some (mergePresence patch emptyPresence))"
  by (simp add: updateMyPresence_def)

lemma truthy_iff: "truthy r \<longleftrightarrow> (\<exists>v. r = Ref (Some v))"
  by (cases r rule: truthy.cases) simp_all

lemma updateGameStage_frame:
  "others (updateGameStage stg c) = others c"
  "savedScores (updateGameStage stg c) = savedScores c"
  "timeouts (updateGameStage stg c) = timeouts c"
  "confettiAnimation (updateGameStage stg c) = confettiAnimation c"
  "username (updateGameStage stg c) = username c"
  by (simp_all add: updateGameStage_def updateMyPresence_frame)

lemma updateGameStage_loaded:
  "myPresence c = Ref (Some p) \<Longrightarrow>
   updateGameStage stg c = c\<lparr>gameState := stg, myPresence := Ref (Some (p\<lparr>stage := Some stg\<rparr>))\<rparr>"
  by (simp add: updateGameStage_def updateMyPresence_def mergePresence_def emptyPresence_def
      override_def)

lemma updateGameStage_unloaded:
  "\<not> truthy (myPresence c) \<Longrightarrow> updateGameStage stg c = c"
  by (simp add: updateGameStage_def)

lemma updateGameStage_gameState:
  "gameState (updateGameStage stg c) = (if truthy (myPresence c) then stg else gameState c)"
  by (simp add: updateGameStage_def updateMyPresence_frame)

lemma fireTimeout_frame:
  "others (fireTimeout i c) = others c"
  "savedScores (fireTimeout i c) = savedScores c"
  by (cases "snd (timeouts c ! i)"; simp add: fireTimeout_def updateGameStage_frame)+

lemma gameEvents_frame:
  "others (resultState (gameEvents c)) = others c"
  "savedScores (resultState (gameEvents c)) = savedScores c"
  by (simp_all add: gameEvents_def resultState_def updateGameStage_frame setTimeout_def
      split: GameState.split ref.split option.split sum.split)

lemma onGameComplete_frame:
  "others (resultState (onGameComplete success now answer c)) = others c"
  by (simp add: onGameComplete_def resultState_def Let_def updateGameStage_frame
      updateMyPresence_frame setTimeout_def
      split: ref.split option.split sum.split prod.split)

lemma handlers_frame:
  "others (enterWaitingRoom c) = others c"
  "others (onLettersGuessed ls lb c) = others c"
  "others (clickReady c) = others c"
  "others (clickUnready c) = others c"
  by (simp_all add: enterWaitingRoom_def onLettersGuessed_def clickReady_def clickUnready_def
      updateGameStage_frame updateMyPresence_frame)

subsection \<open>The stages\<close>

lemma allStages_UNIV: "set allStages = UNIV"
proof -
  have "x \<in> set allStages" for x
    by (cases x) (simp_all add: allStages_def)
  then show ?thesis by blast
qed

text \<open>
  Claim C3, as amended. The lifecycle type has seven stages, not six: CONNECTING, INTRO,
  WAITING, READY, PLAYING, COMPLETE and SCORES are pairwise different and there is no
  other stage.
\<close>

theorem GameState_seven_stages:
  "distinct allStages \<and> length allStages = 7 \<and> set allStages = UNIV"
  using allStages_UNIV by (simp add: allStages_def)

text \<open>Claim C3 as stated fails: the stages CONNECTING to SCORES are seven in number.\<close>

theorem GameState_not_six_stages:
  "set allStages = UNIV \<and> card (UNIV :: GameState set) \<noteq> 6"
proof -
  have "card (set allStages) = 7" by (simp add: allStages_def)
  with allStages_UNIV show ?thesis by simp
qed

subsection \<open>Updating the stage\<close>

text \<open>
  Claim C9. With the local presence loaded, \<open>updateGameStage\<close> sets the local
  \<open>gameState\<close> and the \<open>stage\<close> field of the presence to the requested stage (and
  nothing else in the presence); with the presence missing it returns the state as it was.
\<close>

theorem updateGameStage_atomic:
  "(\<forall>p. myPresence c = Ref (Some p) \<longrightarrow>
      gameState (updateGameStage stg c) = stg \<and>
      myPresence (updateGameStage stg c) = Ref (Some (p\<lparr>stage := Some stg\<rparr>))) \<and>
   (\<not> truthy (myPresence c) \<longrightarrow> updateGameStage stg c = c)"
  by (simp add: updateGameStage_loaded updateGameStage_unloaded)

theorem updateGameStage_atomic_witness:
  "gameState (updateGameStage READY (clientIn WAITING [] [])) = READY \<and>
   myPresence (updateGameStage READY (clientIn WAITING [] [])) = Ref (Some (playerIn ''ann'' READY)) \<and>
   updateGameStage READY ((clientIn WAITING [] [])\<lparr>myPresence := Ref None\<rparr>)
     = (clientIn WAITING [] [])\<lparr>myPresence := Ref None\<rparr>"
  using updateGameStage_atomic [of "clientIn WAITING [] []" READY]
    updateGameStage_atomic [of "(clientIn WAITING [] [])\<lparr>myPresence := Ref None\<rparr>" READY]
  by (simp add: clientIn_def playerIn_def)

text \<open>
  Claim C5. A game event, a stage update and an expiring timeout leave the record of the
  other users, and so each of their presences, as it was: the local step writes the local
  stage, the local presence and the pending timeouts only. The same holds for the handlers
  that move the stage from the user interface and from the game.
\<close>

theorem others_unchanged:
  "others (resultState (gameEvents c)) = others c \<and>
   others (updateGameStage stg c) = others c \<and>
   others (fireTimeout i c) = others c \<and>
   others (enterWaitingRoom c) = others c \<and>
   others (clickReady c) = others c \<and>
   others (clickUnready c) = others c \<and>
   others (resultState (onGameComplete success now answer c)) = others c"
  by (simp add: gameEvents_frame updateGameStage_frame fireTimeout_frame handlers_frame
      onGameComplete_frame)

subsection \<open>The game events of READY and COMPLETE\<close>

lemma allInStages_otherUsers:
  "allInStages stages c =
     (if otherUsers c = [] then Inr False
      else (case someStage stages False (otherUsers c) (myPresence c) of
              Inl e \<Rightarrow> Inl e
            | Inr (res, myPresenceFound) \<Rightarrow> Inr (res \<and> myPresenceFound)))"
  by (simp add: allInStages_def otherUsers_def split: ref.split option.split)

lemma allInStages_ready:
  assumes "myPresence c = Ref (Some p)" "stage p = Some READY"
  shows "allInStages [READY, PLAYING] c =
           Inr (otherUsers c \<noteq> [] \<and>
                (list_all (otherInStage READY) (otherUsers c) \<or>
                 list_all (otherInStage PLAYING) (otherUsers c)))"
  using assms by (simp add: allInStages_otherUsers)

lemma not_both_stages:
  assumes "os \<noteq> []" "list_all (otherInStage s1) os" "list_all (otherInStage s2) os"
  shows "s1 = s2"
proof -
  obtain other rest where "os = other # rest" using assms(1) by (cases os) auto
  with assms(2,3) have "otherInStage s1 other" "otherInStage s2 other" by simp_all
  then show ?thesis by (auto simp: otherInStage_def split: option.splits)
qed

lemma allInStages_complete:
  assumes "myPresence c = Ref (Some p)" "stage p = Some COMPLETE"
  shows "allInStages [SCORES, COMPLETE, WAITING] c =
           Inr (otherUsers c \<noteq> [] \<and>
                (list_all (otherInStage COMPLETE) (otherUsers c) \<or>
                 list_all (otherInStage WAITING) (otherUsers c)))"
proof (cases "otherUsers c = []")
  case True
  then show ?thesis by (simp add: allInStages_otherUsers)
next
  case False
  have "\<not> list_all (otherInStage SCORES) (otherUsers c)"
    if "list_all (otherInStage COMPLETE) (otherUsers c) \<or> list_all (otherInStage WAITING) (otherUsers c)"
    using that not_both_stages [OF False] by blast
  with False assms show ?thesis
    by (auto simp add: allInStages_otherUsers)
qed

lemma uniform_everyUser:
  assumes "myPresence c = Ref (Some p)" "stage p = Some s0" "s0 \<in> set stages"
    "s1 \<in> set stages" "list_all (otherInStage s1) (otherUsers c)"
  shows "everyUserInStages stages c"
  using assms by (auto simp: everyUserInStages_def list_ex_iff list_all_iff)

text \<open>
  Claim C1, as amended. Let the local client be in the READY stage, its loaded presence
  showing READY. With no other connected user the event changes nothing. With at least one
  other user, all of them in READY or all of them in PLAYING, the event schedules the
  transition to PLAYING, which its 800 ms timeout then takes. Whenever the event does
  anything, it schedules that transition, there is another user, and every user is in
  READY or PLAYING. The event itself never changes the stage.
\<close>

theorem ready_event:
  assumes "gameState c = READY" "myPresence c = Ref (Some p)" "stage p = Some READY"
  shows "(otherUsers c = [] \<longrightarrow> gameEvents c = Inr c) \<and>
         (otherUsers c \<noteq> [] \<and>
            (list_all (otherInStage READY) (otherUsers c) \<or>
             list_all (otherInStage PLAYING) (otherUsers c)) \<longrightarrow>
            gameEvents c = Inr (setTimeout (UpdateGameStage PLAYING) 800 c)) \<and>
         (gameEvents c \<noteq> Inr c \<longrightarrow>
            gameEvents c = Inr (setTimeout (UpdateGameStage PLAYING) 800 c) \<and>
            otherUsers c \<noteq> [] \<and> everyUserInStages [READY, PLAYING] c) \<and>
         gameState (setTimeout (UpdateGameStage PLAYING) 800 c) = READY \<and>
         gameState (fireTimeout (length (timeouts c))
                      (setTimeout (UpdateGameStage PLAYING) 800 c)) = PLAYING"
proof -
  have ev: "gameEvents c =
      Inr (if otherUsers c \<noteq> [] \<and>
                (list_all (otherInStage READY) (otherUsers c) \<or>
                 list_all (otherInStage PLAYING) (otherUsers c))
           then setTimeout (UpdateGameStage PLAYING) 800 c else c)"
    using assms by (simp add: gameEvents_def allInStages_ready)
  have every: "everyUserInStages [READY, PLAYING] c"
    if "list_all (otherInStage READY) (otherUsers c) \<or>
        list_all (otherInStage PLAYING) (otherUsers c)"
    using that uniform_everyUser [OF assms(2,3), of "[READY, PLAYING]"] by auto
  have fire: "gameState (fireTimeout (length (timeouts c))
                      (setTimeout (UpdateGameStage PLAYING) 800 c)) = PLAYING"
    using assms by (simp add: fireTimeout_def setTimeout_def updateGameStage_gameState)
  have keep: "gameState (setTimeout (UpdateGameStage PLAYING) 800 c) = READY"
    using assms by (simp add: setTimeout_def)
  show ?thesis
  proof (cases "otherUsers c \<noteq> [] \<and>
                (list_all (otherInStage READY) (otherUsers c) \<or>
                 list_all (otherInStage PLAYING) (otherUsers c))")
    case True
    with ev have "gameEvents c = Inr (setTimeout (UpdateGameStage PLAYING) 800 c)" by simp
    with True every fire keep show ?thesis by simp
  next
    case False
    with ev have "gameEvents c = Inr c" by simp
    with False fire keep show ?thesis by blast
  qed
qed

theorem ready_event_witness:
  "gameState (clientIn READY [peerIn 1 PLAYING, peerIn 2 PLAYING] []) = READY \<and>
   otherUsers (clientIn READY [peerIn 1 PLAYING, peerIn 2 PLAYING] []) \<noteq> [] \<and>
   list_all (otherInStage PLAYING) (otherUsers (clientIn READY [peerIn 1 PLAYING, peerIn 2 PLAYING] [])) \<and>
   gameEvents (clientIn READY [peerIn 1 PLAYING, peerIn 2 PLAYING] []) =
     Inr (setTimeout (UpdateGameStage PLAYING) 800
            (clientIn READY [peerIn 1 PLAYING, peerIn 2 PLAYING] [])) \<and>
   gameEvents (clientIn READY [peerIn 1 PLAYING, peerIn 2 PLAYING] []) \<noteq>
     Inr (clientIn READY [peerIn 1 PLAYING, peerIn 2 PLAYING] []) \<and>
   everyUserInStages [READY, PLAYING] (clientIn READY [peerIn 1 PLAYING, peerIn 2 PLAYING] [])"
proof -
  let ?c = "clientIn READY [peerIn 1 PLAYING, peerIn 2 PLAYING] []"
  have h1: "gameState ?c = READY" by (simp add: clientIn_def)
  have h2: "myPresence ?c = Ref (Some (playerIn ''ann'' READY))" by (simp add: clientIn_def)
  have h3: "stage (playerIn ''ann'' READY) = Some READY" by (simp add: playerIn_def)
  have h4: "otherUsers ?c \<noteq> []" "list_all (otherInStage PLAYING) (otherUsers ?c)"
    by (simp_all add: otherUsers_def clientIn_def peerIn_def playerIn_def otherInStage_def)
  have h5: "setTimeout (UpdateGameStage PLAYING) 800 ?c \<noteq> ?c"
    by (simp add: setTimeout_def clientIn_def)
  from ready_event [OF h1 h2 h3] h4 have
    ev: "gameEvents ?c = Inr (setTimeout (UpdateGameStage PLAYING) 800 ?c)" by blast
  with h5 have ne: "gameEvents ?c \<noteq> Inr ?c" by simp
  with ready_event [OF h1 h2 h3] have "everyUserInStages [READY, PLAYING] ?c" by blast
  with h1 h4 ev ne show ?thesis by blast
qed


text \<open>
  Claim C1 as stated fails for a player alone in the room: every user is in READY, and
  the event neither moves the stage nor schedules anything.
\<close>

theorem lone_ready_stays:
  "everyUserInStages [READY, PLAYING] (clientIn READY [] []) \<and>
   gameState (clientIn READY [] []) = READY \<and>
   gameEvents (clientIn READY [] []) = Inr (clientIn READY [] [])"
  by (simp add: everyUserInStages_def otherUsers_def gameEvents_def allInStages_def
      clientIn_def playerIn_def)

text \<open>
  Claim C4, as amended. Let the local client be in the COMPLETE stage, its loaded presence
  showing COMPLETE. With no other connected user the event changes nothing. With at least
  one other user, all of them in COMPLETE or all of them in WAITING, the event moves the
  client to SCORES. Whenever the event does anything, it moves the client to SCORES, there
  is another user, and every user is in SCORES, COMPLETE or WAITING.
\<close>

theorem complete_event:
  assumes "gameState c = COMPLETE" "myPresence c = Ref (Some p)" "stage p = Some COMPLETE"
  shows "(otherUsers c = [] \<longrightarrow> gameEvents c = Inr c) \<and>
         (otherUsers c \<noteq> [] \<and>
            (list_all (otherInStage COMPLETE) (otherUsers c) \<or>
             list_all (otherInStage WAITING) (otherUsers c)) \<longrightarrow>
            gameEvents c = Inr (updateGameStage SCORES c)) \<and>
         (gameEvents c \<noteq> Inr c \<longrightarrow>
            gameEvents c = Inr (updateGameStage SCORES c) \<and>
            otherUsers c \<noteq> [] \<and> everyUserInStages [SCORES, COMPLETE, WAITING] c) \<and>
         gameState (updateGameStage SCORES c) = SCORES"
proof -
  have ev: "gameEvents c =
      Inr (if otherUsers c \<noteq> [] \<and>
                (list_all (otherInStage COMPLETE) (otherUsers c) \<or>
                 list_all (otherInStage WAITING) (otherUsers c))
           then updateGameStage SCORES c else c)"
    using assms by (simp add: gameEvents_def allInStages_complete)
  have every: "everyUserInStages [SCORES, COMPLETE, WAITING] c"
    if "list_all (otherInStage COMPLETE) (otherUsers c) \<or>
        list_all (otherInStage WAITING) (otherUsers c)"
    using that uniform_everyUser [OF assms(2,3), of "[SCORES, COMPLETE, WAITING]"] by auto
  have upd: "gameState (updateGameStage SCORES c) = SCORES"
    using assms by (simp add: updateGameStage_gameState)
  show ?thesis
  proof (cases "otherUsers c \<noteq> [] \<and>
                (list_all (otherInStage COMPLETE) (otherUsers c) \<or>
                 list_all (otherInStage WAITING) (otherUsers c))")
    case True
    with ev have "gameEvents c = Inr (updateGameStage SCORES c)" by simp
    with True every upd show ?thesis by simp
  next
    case False
    with ev have "gameEvents c = Inr c" by simp
    with False upd show ?thesis by blast
  qed
qed

theorem complete_event_witness:
  "gameState (clientIn COMPLETE [peerIn 1 WAITING] []) = COMPLETE \<and>
   otherUsers (clientIn COMPLETE [peerIn 1 WAITING] []) \<noteq> [] \<and>
   list_all (otherInStage WAITING) (otherUsers (clientIn COMPLETE [peerIn 1 WAITING] [])) \<and>
   gameEvents (clientIn COMPLETE [peerIn 1 WAITING] []) =
     Inr (updateGameStage SCORES (clientIn COMPLETE [peerIn 1 WAITING] [])) \<and>
   gameEvents (clientIn COMPLETE [peerIn 1 WAITING] []) \<noteq>
     Inr (clientIn COMPLETE [peerIn 1 WAITING] []) \<and>
   gameState (updateGameStage SCORES (clientIn COMPLETE [peerIn 1 WAITING] [])) = SCORES \<and>
   everyUserInStages [SCORES, COMPLETE, WAITING] (clientIn COMPLETE [peerIn 1 WAITING] [])"
proof -
  let ?c = "clientIn COMPLETE [peerIn 1 WAITING] []"
  have h1: "gameState ?c = COMPLETE" by (simp add: clientIn_def)
  have h2: "myPresence ?c = Ref (Some (playerIn ''ann'' COMPLETE))" by (simp add: clientIn_def)
  have h3: "stage (playerIn ''ann'' COMPLETE) = Some COMPLETE" by (simp add: playerIn_def)
  have h4: "otherUsers ?c \<noteq> []" "list_all (otherInStage WAITING) (otherUsers ?c)"
    by (simp_all add: otherUsers_def clientIn_def peerIn_def playerIn_def otherInStage_def)
  from complete_event [OF h1 h2 h3] h4 have
    ev: "gameEvents ?c = Inr (updateGameStage SCORES ?c)" by blast
  from complete_event [OF h1 h2 h3] have
    st: "gameState (updateGameStage SCORES ?c) = SCORES" by blast
  with h1 have "updateGameStage SCORES ?c \<noteq> ?c" by auto
  with ev have ne: "gameEvents ?c \<noteq> Inr ?c" by simp
  with complete_event [OF h1 h2 h3] have "everyUserInStages [SCORES, COMPLETE, WAITING] ?c"
    by blast
  with h1 h4 ev ne st show ?thesis by blast
qed

text \<open>
  Claim C4 as stated fails for a player alone in the room: every user is in COMPLETE, and
  the event leaves the stage at COMPLETE.
\<close>

theorem lone_complete_stays:
  "everyUserInStages [SCORES, COMPLETE, WAITING] (clientIn COMPLETE [] []) \<and>
   gameState (clientIn COMPLETE [] []) = COMPLETE \<and>
   gameEvents (clientIn COMPLETE [] []) = Inr (clientIn COMPLETE [] [])"
  by (simp add: everyUserInStages_def otherUsers_def gameEvents_def allInStages_def
      clientIn_def playerIn_def)

text \<open>
  Claim C8 at a client in COMPLETE whose only peer is already in SCORES. One stage of the
  list (SCORES) holds every other user and the local stage (COMPLETE) is in the list, yet
  \<open>allInStages\<close> returns false: \<open>some\<close> stops at SCORES, before the callback has seen
  COMPLETE and set \<open>myPresenceFound\<close>.
\<close>

theorem allInStages_peer_in_scores:
  "allInStagesClaimed [SCORES, COMPLETE, WAITING] (clientIn COMPLETE [peerIn 1 SCORES] []) \<and>
   allInStages [SCORES, COMPLETE, WAITING] (clientIn COMPLETE [peerIn 1 SCORES] []) = Inr False"
  by (simp add: allInStagesClaimed_def allInStages_def otherUsers_def otherInStage_def
      clientIn_def peerIn_def playerIn_def)




subsection \<open>Stage transitions\<close>








text \<open>
  The timeout outlives a change of mind: after the READY event has scheduled it, the
  "not ready" button takes the client back to WAITING, and the timeout then moves it from
  WAITING to PLAYING, past READY.
\<close>

lemma timeout_survives_unready:
  "gameEvents (clientIn READY [peerIn 1 READY] [])
     = Inr (setTimeout (UpdateGameStage PLAYING) 800 (clientIn READY [peerIn 1 READY] [])) \<and>
   gameState (clickUnready
      (setTimeout (UpdateGameStage PLAYING) 800 (clientIn READY [peerIn 1 READY] []))) = WAITING \<and>
   gameState (fireTimeout 0 (clickUnready
      (setTimeout (UpdateGameStage PLAYING) 800 (clientIn READY [peerIn 1 READY] [])))) = PLAYING"
  by (simp add: gameEvents_def allInStages_def clientIn_def playerIn_def peerIn_def
      otherInStage_def setTimeout_def clickUnready_def fireTimeout_def updateGameStage_def
      updateMyPresence_def mergePresence_def emptyPresence_def override_def)

subsection \<open>Guessing a row and finishing the puzzle\<close>

lemma countRows_acc:
  "fold (\<lambda>curr acc. if list_all (\<lambda>obj. state obj \<noteq> INITIAL) curr then acc + 1 else acc) lb n
     = n + length (filter (list_all (\<lambda>obj. state obj \<noteq> INITIAL)) lb)"
  by (induction lb arbitrary: n) simp_all

lemma countRows_filter:
  "countRows lb = length (filter (list_all (\<lambda>obj. state obj \<noteq> INITIAL)) lb)"
  by (simp add: countRows_def countRows_acc)

lemma map_of_objSet:
  "map_of (objSet k v kvs) k' = (if k' = k then Some v else map_of kvs k')"
  by (induction kvs) auto

lemma countStates_acc:
  "map_of sc k = Some (Num n) \<Longrightarrow>
   map_of (fold (\<lambda>st currentScore. objSet st (plusOne (map_of currentScore st)) currentScore)
             sts sc) k
     = Some (Num (n + int (length (filter (\<lambda>st. st = k) sts))))"
proof (induction sts arbitrary: sc n)
  case Nil
  then show ?case by simp
next
  case (Cons st sts)
  show ?case
  proof (cases "st = k")
    case True
    with Cons.prems have
      "map_of (objSet st (plusOne (map_of sc st)) sc) k = Some (Num (n + 1))"
      by (simp add: map_of_objSet)
    from Cons.IH [OF this] True show ?thesis by simp
  next
    case False
    with Cons.prems have
      "map_of (objSet st (plusOne (map_of sc st)) sc) k = Some (Num n)"
      by (simp add: map_of_objSet)
    from Cons.IH [OF this] False show ?thesis by simp
  qed
qed

lemma countStates_count:
  assumes "k = CORRECT \<or> k = PRESENT \<or> k = ABSENT"
  shows "map_of (countStates (map snd ls)) k
           = Some (Num (int (length (filter (\<lambda>e. snd e = k) ls))))"
proof -
  have "map_of [(CORRECT, Num 0), (PRESENT, Num 0), (ABSENT, Num 0)] k = Some (Num 0)"
    using assms by auto
  from countStates_acc [OF this, of "map snd ls"] show ?thesis
    by (simp add: countStates_def filter_map comp_def)
qed

text \<open>
  Claim C6. After \<open>onLettersGuessed\<close> the local presence has \<open>rowsComplete\<close> equal to
  the number of board rows in which no tile is INITIAL, and a score that maps each of
  CORRECT, PRESENT and ABSENT to the number of guessed letters in that state. The
  presence reference is assumed to exist, as \<open>useMyPresence\<close> always returns one.
\<close>

theorem onLettersGuessed_presence:
  assumes "myPresence c \<noteq> Undefined"
  shows "\<exists>p sc. myPresence (onLettersGuessed letterStates letterBoard c) = Ref (Some p) \<and>
      rowsComplete p =
        Some (length (filter (list_all (\<lambda>obj. state obj \<noteq> INITIAL)) letterBoard)) \<and>
      score p = Some sc \<and>
      map_of sc CORRECT = Some (Num (int (length (filter (\<lambda>e. snd e = CORRECT) letterStates)))) \<and>
      map_of sc PRESENT = Some (Num (int (length (filter (\<lambda>e. snd e = PRESENT) letterStates)))) \<and>
      map_of sc ABSENT = Some (Num (int (length (filter (\<lambda>e. snd e = ABSENT) letterStates))))"
proof -
  let ?patch = "emptyPresence\<lparr>score := Some (countStates (map snd letterStates)),
          board := Some (BoardRows letterBoard),
          rowsComplete := Some (countRows letterBoard)\<rparr>"
  obtain v where v: "myPresence c = Ref v" using assms by (cases "myPresence c") auto
  define p0 where "p0 = (case v of None \<Rightarrow> emptyPresence | Some q \<Rightarrow> q)"
  have m: "myPresence (onLettersGuessed letterStates letterBoard c)
             = Ref (Some (mergePresence ?patch p0))"
    using v by (cases v) (simp_all add: onLettersGuessed_def updateMyPresence_def p0_def)
  have r: "rowsComplete (mergePresence ?patch p0)
             = Some (length (filter (list_all (\<lambda>obj. state obj \<noteq> INITIAL)) letterBoard))"
    by (simp add: mergePresence_def override_def countRows_filter)
  have s: "score (mergePresence ?patch p0) = Some (countStates (map snd letterStates))"
    by (simp add: mergePresence_def override_def)
  from m r s countStates_count [of CORRECT letterStates]
    countStates_count [of PRESENT letterStates] countStates_count [of ABSENT letterStates]
  show ?thesis by simp
qed

theorem onLettersGuessed_presence_witness:
  "myPresence (clientIn PLAYING [] []) \<noteq> Undefined \<and>
   (\<exists>p sc. myPresence (onLettersGuessed [(''a'', CORRECT), (''b'', ABSENT), (''c'', ABSENT)]
               [[\<lparr>letter = ''a'', state = CORRECT\<rparr>, \<lparr>letter = ''b'', state = ABSENT\<rparr>],
                [\<lparr>letter = [], state = INITIAL\<rparr>, \<lparr>letter = [], state = INITIAL\<rparr>]]
               (clientIn PLAYING [] [])) = Ref (Some p) \<and>
      rowsComplete p = Some 1 \<and> score p = Some sc \<and>
      map_of sc CORRECT = Some (Num 1) \<and> map_of sc PRESENT = Some (Num 0) \<and>
      map_of sc ABSENT = Some (Num 2))"
proof -
  have h: "myPresence (clientIn PLAYING [] []) \<noteq> Undefined" by (simp add: clientIn_def)
  from onLettersGuessed_presence [OF h,
      of "[(''a'', CORRECT), (''b'', ABSENT), (''c'', ABSENT)]"
         "[[\<lparr>letter = ''a'', state = CORRECT\<rparr>, \<lparr>letter = ''b'', state = ABSENT\<rparr>],
           [\<lparr>letter = [], state = INITIAL\<rparr>, \<lparr>letter = [], state = INITIAL\<rparr>]]"] h
  show ?thesis by simp
qed

text \<open>
  Claim C7. With the presence and the scores list loaded, \<open>onGameComplete\<close> returns
  with the local stage and the presence's stage at COMPLETE, \<open>timeFinished\<close> the clock
  reading (an integer, so finite), on success the CORRECT entry of the score equal to the
  length of the answer (otherwise the score as it was), and the scores list extended at
  its end by exactly one entry, the local presence.
\<close>

theorem onGameComplete_available:
  assumes "myPresence c = Ref (Some p)" "savedScores c = Ref (Some l)"
  shows "\<exists>c' p'. onGameComplete success now answer c = Inr c' \<and>
      gameState c' = COMPLETE \<and>
      myPresence c' = Ref (Some p') \<and>
      stage p' = Some COMPLETE \<and>
      timeFinished p' = Some (Num now) \<and>
      (success \<longrightarrow>
         (\<exists>sc. score p' = Some sc \<and> map_of sc CORRECT = Some (Num (int (length answer))))) \<and>
      (\<not> success \<longrightarrow> score p' = score p) \<and>
      savedScores c' = Ref (Some (l @ [Some p']))"
proof -
  let ?c1 = "c\<lparr>gameState := COMPLETE, myPresence := Ref (Some (p\<lparr>stage := Some COMPLETE\<rparr>))\<rparr>"
  have c1: "updateGameStage COMPLETE c = ?c1"
    using assms(1) by (rule updateGameStage_loaded)
  have guard: "\<not> (myPresence c = Undefined \<or> savedScores c = Undefined)"
    using assms by simp
  show ?thesis
  proof (cases success)
    case True
    then show ?thesis
      using assms guard
      by (simp add: onGameComplete_def c1 Let_def updateMyPresence_def mergePresence_def
          override_def emptyPresence_def setTimeout_def map_of_objSet)
  next
    case False
    then show ?thesis
      using assms guard
      by (simp add: onGameComplete_def c1 Let_def updateMyPresence_def mergePresence_def
          override_def emptyPresence_def)
  qed
qed

theorem onGameComplete_available_witness:
  "myPresence (clientIn PLAYING [] []) = Ref (Some (playerIn ''ann'' PLAYING)) \<and>
   savedScores (clientIn PLAYING [] []) = Ref (Some []) \<and>
   (\<exists>c' p'. onGameComplete True 1700 ''hello'' (clientIn PLAYING [] []) = Inr c' \<and>
      gameState c' = COMPLETE \<and> stage p' = Some COMPLETE \<and>
      timeFinished p' = Some (Num 1700) \<and>
      (\<exists>sc. score p' = Some sc \<and> map_of sc CORRECT = Some (Num 5)) \<and>
      savedScores c' = Ref (Some [Some p']))"
proof -
  have h1: "myPresence (clientIn PLAYING [] []) = Ref (Some (playerIn ''ann'' PLAYING))"
    by (simp add: clientIn_def)
  have h2: "savedScores (clientIn PLAYING [] []) = Ref (Some [])"
    by (simp add: clientIn_def)
  from onGameComplete_available [OF h1 h2, of True 1700 "''hello''"] h1 h2
  show ?thesis by auto
qed

subsection \<open>The two columns of live boards\<close>

lemma mset_split_filter:
  assumes "\<And>x. Q x \<longleftrightarrow> P1 x \<or> P2 x" "\<And>x. \<not> (P1 x \<and> P2 x)"
  shows "mset (map f (filter P1 xs)) + mset (map f (filter P2 xs)) = mset (map f (filter Q xs))"
  using assms by (induction xs) auto

lemma filter_snd_enumerate:
  "map snd (filter (\<lambda>(index, x). P x) (List.enumerate n ys)) = filter P ys"
  by (induction ys arbitrary: n) simp_all

text \<open>
  Claim C10. The entries that \<open>othersFilterOdd(true)\<close> and \<open>othersFilterOdd(false)\<close>
  keep, each taken with its index in \<open>othersPresence\<close>, are pairwise different, so the
  two sides share no peer and repeat none; together they are exactly the presences of
  \<open>othersPresence\<close> that have a score; and the two lists shown hold every scored
  presence as often as \<open>othersPresence\<close> does.
\<close>

theorem othersFilterOdd_partition:
  "distinct (othersFilterOddIndexed True c @ othersFilterOddIndexed False c) \<and>
   set (othersFilterOddIndexed True c) \<union> set (othersFilterOddIndexed False c)
     = set (filter (\<lambda>(index, other). score other \<noteq> None) (List.enumerate 0 (othersPresence c))) \<and>
   mset (othersFilterOdd True c) + mset (othersFilterOdd False c)
     = mset (filter (\<lambda>other. score other \<noteq> None) (othersPresence c))"
proof -
  let ?xs = "List.enumerate 0 (othersPresence c)"
  have d: "distinct ?xs" by (simp add: distinct_enumerate)
  have disj: "set (othersFilterOddIndexed True c) \<inter> set (othersFilterOddIndexed False c) = {}"
    by (auto simp: othersFilterOddIndexed_def)
  have dist: "distinct (othersFilterOddIndexed True c @ othersFilterOddIndexed False c)"
    using d disj by (simp add: othersFilterOddIndexed_def)
  have un: "set (othersFilterOddIndexed True c) \<union> set (othersFilterOddIndexed False c)
     = set (filter (\<lambda>(index, other). score other \<noteq> None) ?xs)"
    by (auto simp: othersFilterOddIndexed_def)
  have "mset (othersFilterOdd True c) + mset (othersFilterOdd False c)
     = mset (map snd (filter (\<lambda>(index, other). score other \<noteq> None) ?xs))"
    unfolding othersFilterOdd_def othersFilterOddIndexed_def
    by (rule mset_split_filter) auto
  then have ms: "mset (othersFilterOdd True c) + mset (othersFilterOdd False c)
     = mset (filter (\<lambda>other. score other \<noteq> None) (othersPresence c))"
    by (simp only: filter_snd_enumerate)
  from dist un ms show ?thesis by blast
qed

end
